theory Spec2Isabelle
  imports Main
begin

section \<open>Python text\<close>

text \<open>
  A Python \<open>str\<close> is a sequence of Unicode code points, and \<open>len\<close> and slicing count
  code points; a string is therefore a list of code points, each a natural number.
  \<open>lit\<close> reads an ASCII literal as such a list.
\<close>

type_synonym pystr = "nat list"

abbreviation lit :: "string \<Rightarrow> pystr" where
  "lit s \<equiv> map of_char s"

text \<open>
  \<open>str.isspace\<close>, which decides what \<open>str.strip()\<close> removes and what \<open>\s\<close> matches in a
  \<open>str\<close> pattern: U+0009..U+000D, U+001C..U+0020, U+0085, U+00A0, U+1680,
  U+2000..U+200A, U+2028, U+2029, U+202F, U+205F and U+3000.
\<close>

definition isspace :: "nat \<Rightarrow> bool" where
  "isspace c \<longleftrightarrow>
     (9 \<le> c \<and> c \<le> 13) \<or> (28 \<le> c \<and> c \<le> 32) \<or> c = 133 \<or> c = 160 \<or> c = 5760 \<or>
     (8192 \<le> c \<and> c \<le> 8202) \<or> c = 8232 \<or> c = 8233 \<or> c = 8239 \<or> c = 8287 \<or> c = 12288"

text \<open>\<open>s.strip()\<close>: leading and trailing whitespace removed.\<close>

definition strip :: "pystr \<Rightarrow> pystr" where
  "strip s = rev (dropWhile isspace (rev (dropWhile isspace s)))"

text \<open>\<open>s.split(sep)\<close> for a one-character separator; \<open>''.split(sep)\<close> is \<open>['']\<close>.\<close>

fun py_split :: "nat \<Rightarrow> pystr \<Rightarrow> pystr list" where
  "py_split sep [] = [[]]"
| "py_split sep (c # cs) =
     (if c = sep then [] # py_split sep cs
      else (case py_split sep cs of [] \<Rightarrow> [[c]] | w # ws \<Rightarrow> (c # w) # ws))"

text \<open>\<open>str(n)\<close> for a non-negative integer: its decimal digits.\<close>

fun str :: "nat \<Rightarrow> pystr" where
  "str n = (if n < 10 then [48 + n] else str (n div 10) @ [48 + n mod 10])"

declare str.simps [simp del]

text \<open>
  \<open>os.path.join(a, b)\<close> with the POSIX separator: an absolute \<open>b\<close> replaces \<open>a\<close>, and no
  separator is added after an empty \<open>a\<close> or one that already ends in a separator.
\<close>

definition path_join :: "pystr \<Rightarrow> pystr \<Rightarrow> pystr" where
  "path_join a b =
     (if b \<noteq> [] \<and> hd b = 47 then b
      else if a = [] \<or> last a = 47 then a @ b
      else a @ [47] @ b)"

text \<open>
  \<open>x or y\<close> on attribute values (\<open>None\<close> or a string): \<open>x\<close> when it is a non-empty
  string, otherwise \<open>y\<close>.
\<close>

definition truthy :: "pystr option \<Rightarrow> bool" where
  "truthy v = (case v of None \<Rightarrow> False | Some u \<Rightarrow> u \<noteq> [])"

section \<open>sanitize\_folder\_name\<close>

text \<open>The characters of the class \<open>[<>:"/\\|?*]\<close>.\<close>

definition invalid_chars :: "nat list" where
  "invalid_chars = [60, 62, 58, 34, 47, 92, 124, 63, 42]"

text \<open>\<open>re.sub(r'[<>:"/\\|?*]', '', name)\<close>\<close>

definition remove_invalid :: "pystr \<Rightarrow> pystr" where
  "remove_invalid name = filter (\<lambda>c. c \<notin> set invalid_chars) name"

text \<open>\<open>re.sub(r'\s+', ' ', name)\<close>: every maximal run of whitespace becomes one space.\<close>

function collapse_spaces :: "pystr \<Rightarrow> pystr" where
  "collapse_spaces [] = []"
| "collapse_spaces (c # cs) =
     (if isspace c then 32 # collapse_spaces (dropWhile isspace cs)
      else c # collapse_spaces cs)"
  by pat_completeness auto
termination
  by (relation "measure length") (auto simp: less_Suc_eq_le length_dropWhile_le)

definition sanitize_folder_name :: "pystr \<Rightarrow> pystr" where
  "sanitize_folder_name name0 =
     (let name1 = remove_invalid name0;
          name2 = collapse_spaces name1;
          name3 = strip name2
      in if length name3 > 100 then take 100 name3 else name3)"

section \<open>Exceptions, storage and console\<close>

text \<open>
  The exception classes the program tells apart, and \<open>OtherException\<close> for every other
  subclass of \<open>Exception\<close> (a stale element reference, a WebDriver error, ...).
\<close>

datatype exn =
    NoSuchElementException
  | ElementClickInterceptedException
  | TimeoutException
  | OSError
  | UnicodeEncodeError
  | OtherException

text \<open>
  The reports printed on the console, one constructor for each \<open>print\<close> that tells what
  the run did. The separator lines, the closing summary and the preview of the saved
  text are left out, and printing itself is taken never to raise.
\<close>

datatype report =
    Downloaded pystr
  | FailedToDownload pystr exn
  | FoundTiles nat
  | WillScrape int
  | ProcessingProduct nat
  | ExtractingProductName
  | NameEmptyUsingDefault pystr
  | ProductName pystr
  | CreatedFolder pystr
  | NoProductNameElement
  | Step1
  | MainImageUrlNotFound
  | NoImageElement
  | Step2
  | FoundSwatches nat
  | ClickingSwatch nat
  | ErrorProcessingSwatch nat exn
  | NoSwatchesFound
  | NoSwatchLists
  | Step3
  | FoundPricing
  | NoPricing
  | SavedDetails pystr
  | NoItemDetail
  | CompletedProduct nat pystr
  | ErrorProcessingProduct nat exn
  | ExecutionCompleted
  | TimeoutLoading
  | ErrorOccurred exn
  | BrowserClosed

text \<open>
  A file holds either the bytes of a downloaded image or the rows handed to the CSV
  writer, in order; each row of the program has two fields.
\<close>

type_synonym row = "pystr \<times> pystr"

datatype stored = ImageFile "char list" | CsvFile "row list"

record state =
  files :: "pystr \<rightharpoonup> stored"
  dirs :: "pystr set"
  console :: "report list"

definition say :: "report \<Rightarrow> state \<Rightarrow> state" where
  "say r s = s\<lparr>console := console s @ [r]\<rparr>"

text \<open>
  What lies outside the program: the answer of \<open>requests.get\<close> to a URL (an exception,
  or a response), and the paths at which \<open>open\<close> for writing or \<open>os.makedirs\<close> raise
  \<open>OSError\<close>.
\<close>

record response =
  status_code :: int
  content :: "char list"

record world =
  requests_get :: "pystr \<Rightarrow> exn + response"
  open_fails :: "pystr \<Rightarrow> bool"
  makedirs_fails :: "pystr \<Rightarrow> bool"

text \<open>\<open>os.makedirs(path, exist_ok=True)\<close>\<close>

definition makedirs :: "world \<Rightarrow> pystr \<Rightarrow> state \<Rightarrow> exn option \<times> state" where
  "makedirs w path s =
     (if makedirs_fails w path then (Some OSError, s)
      else (None, s\<lparr>dirs := insert path (dirs s)\<rparr>))"

section \<open>download\_image\<close>

definition download_image :: "world \<Rightarrow> pystr \<Rightarrow> pystr \<Rightarrow> state \<Rightarrow> bool \<times> state" where
  "download_image w image_url filename s =
     (case requests_get w image_url of
        Inl e \<Rightarrow> (False, say (FailedToDownload filename e) s)
      | Inr resp \<Rightarrow>
          if status_code resp = 200 then
            (if open_fails w filename
             then (False, say (FailedToDownload filename OSError) s)
             else (True, say (Downloaded filename)
                     (s\<lparr>files := (files s)(filename \<mapsto> ImageFile (content resp))\<rparr>)))
          else (False, s))"

section \<open>The page: what the browser answers\<close>

text \<open>
  Each call into the browser either returns or raises. For a call without a result the
  field is \<open>None\<close> when it returns and \<open>Some e\<close> when it raises \<open>e\<close>; for a call with a
  result it is \<open>Inr\<close> of the result or \<open>Inl\<close> of the exception. A lookup of the image
  (\<open>find_element\<close> of the wrapper, then of the \<open>img\<close> inside it) is one such answer: the
  exception of the first lookup that raises, or the element found.
\<close>

record img_element =
  src :: "exn + pystr option"
  data_src :: "exn + pystr option"

record button =
  scroll_button :: "exn option"
  click :: "exn option"
  script_click :: "exn option"
  image_after_click :: "exn + img_element"

record tile =
  scroll_tile :: "exn option"
  product_name_text :: "exn + pystr"
  main_image :: "exn + img_element"
  cover_swatch_lists :: "exn + (exn + button list) list"
  item_detail_text :: "exn + pystr"
  item_pricing_text :: "exn + pystr"

text \<open>\<open>img_element.get_attribute("src") or img_element.get_attribute("data-src")\<close>\<close>

definition image_url :: "img_element \<Rightarrow> exn + pystr option" where
  "image_url img =
     (case src img of
        Inl e \<Rightarrow> Inl e
      | Inr a \<Rightarrow> if truthy a then Inr a else data_src img)"

section \<open>The steps of one product\<close>

subsection \<open>Product name and folder\<close>

text \<open>The body of the \<open>try\<close> of the name step: the name read from the tile, its folder.\<close>

definition resolve_name_try ::
  "world \<Rightarrow> nat \<Rightarrow> tile \<Rightarrow> state \<Rightarrow> (exn + pystr \<times> pystr) \<times> state" where
  "resolve_name_try w index t s =
     (case product_name_text t of
        Inl e \<Rightarrow> (Inl e, s)
      | Inr txt \<Rightarrow>
          (let stripped = strip txt;
               product_name = (if stripped = [] then lit ''Product_'' @ str index else stripped);
               s1 = (if stripped = [] then say (NameEmptyUsingDefault product_name) s
                     else say (ProductName product_name) s);
               folder_name = sanitize_folder_name product_name;
               product_folder = path_join (lit ''scraped_products'') folder_name
           in case makedirs w product_folder s1 of
                (Some e, s2) \<Rightarrow> (Inl e, s2)
              | (None, s2) \<Rightarrow>
                  (Inr (product_name, product_folder), say (CreatedFolder product_folder) s2)))"

text \<open>
  The name step with its handler: \<open>NoSuchElementException\<close> alone is caught, and the
  positional name is then used as it is, without sanitizing.
\<close>

definition resolve_name ::
  "world \<Rightarrow> nat \<Rightarrow> tile \<Rightarrow> state \<Rightarrow> (exn + pystr \<times> pystr) \<times> state" where
  "resolve_name w index t s =
     (case resolve_name_try w index t s of
        (Inr r, s1) \<Rightarrow> (Inr r, s1)
      | (Inl e, s1) \<Rightarrow>
          if e = NoSuchElementException then
            (let s2 = say NoProductNameElement s1;
                 product_name = lit ''Product_'' @ str index;
                 folder_name = product_name;
                 product_folder = path_join (lit ''scraped_products'') folder_name
             in case makedirs w product_folder s2 of
                  (Some e', s3) \<Rightarrow> (Inl e', s3)
                | (None, s3) \<Rightarrow> (Inr (product_name, product_folder), s3))
          else (Inl e, s1))"

subsection \<open>Main image\<close>

definition main_image_try :: "world \<Rightarrow> pystr \<Rightarrow> tile \<Rightarrow> state \<Rightarrow> exn option \<times> state" where
  "main_image_try w product_folder t s =
     (case main_image t of
        Inl e \<Rightarrow> (Some e, s)
      | Inr img \<Rightarrow>
          (case image_url img of
             Inl e \<Rightarrow> (Some e, s)
           | Inr main_image_url \<Rightarrow>
               (case main_image_url of
                  None \<Rightarrow> (None, say MainImageUrlNotFound s)
                | Some u \<Rightarrow>
                    if u \<noteq> [] then
                      (None, snd (download_image w u
                                (path_join product_folder (lit ''main_image.jpg'')) s))
                    else (None, say MainImageUrlNotFound s))))"

definition extract_main_image ::
  "world \<Rightarrow> pystr \<Rightarrow> tile \<Rightarrow> state \<Rightarrow> exn option \<times> state" where
  "extract_main_image w product_folder t s =
     (case main_image_try w product_folder t s of
        (None, s1) \<Rightarrow> (None, s1)
      | (Some e, s1) \<Rightarrow>
          if e = NoSuchElementException then (None, say NoImageElement s1)
          else (Some e, s1))"

subsection \<open>Colour swatches\<close>

text \<open>The click, and the script click when the click is intercepted.\<close>

definition activate :: "button \<Rightarrow> exn option" where
  "activate b =
     (case click b of
        None \<Rightarrow> None
      | Some e \<Rightarrow> if e = ElementClickInterceptedException then script_click b else Some e)"

definition swatch_filename :: "pystr \<Rightarrow> nat \<Rightarrow> pystr" where
  "swatch_filename product_folder swatch_index =
     path_join product_folder (lit ''swatch_'' @ str swatch_index @ lit ''.jpg'')"

text \<open>The body of the \<open>try\<close> inside the loop over the buttons.\<close>

definition swatch_try ::
  "world \<Rightarrow> pystr \<Rightarrow> nat \<Rightarrow> button \<Rightarrow> state \<Rightarrow> exn option \<times> state" where
  "swatch_try w product_folder swatch_index b s =
     (case scroll_button b of
        Some e \<Rightarrow> (Some e, s)
      | None \<Rightarrow>
          (let s1 = say (ClickingSwatch swatch_index) s
           in case activate b of
                Some e \<Rightarrow> (Some e, s1)
              | None \<Rightarrow>
                  (case image_after_click b of
                     Inl e \<Rightarrow> (Some e, s1)
                   | Inr img \<Rightarrow>
                       (case image_url img of
                          Inl e \<Rightarrow> (Some e, s1)
                        | Inr swatch_image_url \<Rightarrow>
                            (case swatch_image_url of
                               None \<Rightarrow> (None, s1)
                             | Some u \<Rightarrow>
                                 if u \<noteq> [] then
                                   (None, snd (download_image w u
                                      (swatch_filename product_folder swatch_index) s1))
                                 else (None, s1))))))"

text \<open>One turn of the loop: every exception of the body is caught and reported.\<close>

definition process_swatch :: "world \<Rightarrow> pystr \<Rightarrow> nat \<Rightarrow> button \<Rightarrow> state \<Rightarrow> state" where
  "process_swatch w product_folder swatch_index b s =
     (case swatch_try w product_folder swatch_index b s of
        (None, s1) \<Rightarrow> s1
      | (Some e, s1) \<Rightarrow> say (ErrorProcessingSwatch swatch_index e) s1)"

text \<open>\<open>for swatch_index, button in enumerate(swatch_buttons, 1)\<close>, from a given index.\<close>

fun swatch_loop :: "world \<Rightarrow> pystr \<Rightarrow> nat \<Rightarrow> button list \<Rightarrow> state \<Rightarrow> state" where
  "swatch_loop w product_folder swatch_index [] s = s"
| "swatch_loop w product_folder swatch_index (b # bs) s =
     swatch_loop w product_folder (Suc swatch_index) bs
       (process_swatch w product_folder swatch_index b s)"

text \<open>The buttons of all swatch lists, list after list.\<close>

fun collect_buttons :: "(exn + button list) list \<Rightarrow> button list \<Rightarrow> exn + button list" where
  "collect_buttons [] swatch_buttons = Inr swatch_buttons"
| "collect_buttons (swatch_list # rest) swatch_buttons =
     (case swatch_list of
        Inl e \<Rightarrow> Inl e
      | Inr buttons \<Rightarrow> collect_buttons rest (swatch_buttons @ buttons))"

definition swatches_try :: "world \<Rightarrow> pystr \<Rightarrow> tile \<Rightarrow> state \<Rightarrow> exn option \<times> state" where
  "swatches_try w product_folder t s =
     (case cover_swatch_lists t of
        Inl e \<Rightarrow> (Some e, s)
      | Inr swatch_lists \<Rightarrow>
          if swatch_lists \<noteq> [] then
            (case collect_buttons swatch_lists [] of
               Inl e \<Rightarrow> (Some e, s)
             | Inr swatch_buttons \<Rightarrow>
                 (None, swatch_loop w product_folder 1 swatch_buttons
                          (say (FoundSwatches (length swatch_buttons)) s)))
          else (None, say NoSwatchesFound s))"

definition process_swatches ::
  "world \<Rightarrow> pystr \<Rightarrow> tile \<Rightarrow> state \<Rightarrow> exn option \<times> state" where
  "process_swatches w product_folder t s =
     (case swatches_try w product_folder t s of
        (None, s1) \<Rightarrow> (None, s1)
      | (Some e, s1) \<Rightarrow>
          if e = NoSuchElementException then (None, say NoSwatchLists s1)
          else (Some e, s1))"

subsection \<open>Details and pricing\<close>

text \<open>
  The loops that build the rows have no effect but their calls of \<open>writer.writerow\<close>, and
  a call that raises ends them. The calls are therefore taken in two parts: \<open>writerow\<close>
  notes a row as handed to the writer, in order, and \<open>write_rows\<close> below says which of
  the rows handed over reach the file.
\<close>

definition writerow :: "row \<Rightarrow> row list \<Rightarrow> row list" where
  "writerow r rows = rows @ [r]"

text \<open>
  The two loops over the lines, \<open>for i, line in enumerate(lines, 1)\<close>, which differ in
  the word of the positional label only (\<open>Price\<close>, \<open>Detail\<close>); 58 is the colon.
\<close>

fun write_lines :: "pystr \<Rightarrow> nat \<Rightarrow> pystr list \<Rightarrow> row list \<Rightarrow> row list" where
  "write_lines word i [] rows = rows"
| "write_lines word i (line0 # rest) rows =
     (let line = strip line0
      in write_lines word (Suc i) rest
           (if line \<noteq> [] then
              (if 58 \<in> set line then
                 writerow (strip (takeWhile (\<lambda>c. c \<noteq> 58) line),
                           strip (tl (dropWhile (\<lambda>c. c \<noteq> 58) line))) rows
               else writerow (word @ lit '' '' @ str i, line) rows)
            else rows))"

text \<open>Every row handed to the writer between opening and closing the CSV file.\<close>

definition csv_rows :: "pystr \<Rightarrow> pystr list \<Rightarrow> pystr list \<Rightarrow> row list" where
  "csv_rows product_name pricing_lines detail_lines =
     (let rows0 = writerow (lit ''Field'', lit ''Value'') [];
          rows1 = writerow (lit ''Product Name'', product_name) rows0;
          rows2 = (if pricing_lines \<noteq> [] then
                     write_lines (lit ''Price'') 1 pricing_lines
                       (writerow (lit ''=== PRICING ==='', []) rows1)
                   else rows1);
          rows3 = writerow (lit ''=== DETAILS ==='', []) rows2
      in write_lines (lit ''Detail'') 1 detail_lines rows3)"

text \<open>
  The file is opened with \<open>encoding='utf-8'\<close>: a string can be written unless it holds a
  lone surrogate, a code point from U+D800 to U+DFFF.
\<close>

definition utf8_encodable :: "pystr \<Rightarrow> bool" where
  "utf8_encodable txt = list_all (\<lambda>c. c < 55296 \<or> 57343 < c) txt"

definition row_encodable :: "row \<Rightarrow> bool" where
  "row_encodable r \<longleftrightarrow> utf8_encodable (fst r) \<and> utf8_encodable (snd r)"

text \<open>
  The rows reach the file one at a time, each encoded as a whole before any of it is
  written. At the first row that cannot be encoded \<open>writerow\<close> raises
  \<open>UnicodeEncodeError\<close>, and the file, closed by the \<open>with\<close>, keeps the rows before it.
  The result is the exception, if any, and the rows in the file.
\<close>

fun write_rows :: "row list \<Rightarrow> exn option \<times> row list" where
  "write_rows [] = (None, [])"
| "write_rows (r # rs) =
     (if row_encodable r then
        (case write_rows rs of (e, written) \<Rightarrow> (e, r # written))
      else (Some UnicodeEncodeError, []))"

text \<open>The inner \<open>try\<close>: the pricing text, empty when the element is not found.\<close>

definition read_pricing :: "tile \<Rightarrow> state \<Rightarrow> (exn + pystr) \<times> state" where
  "read_pricing t s =
     (case item_pricing_text t of
        Inr pricing_text \<Rightarrow> (Inr pricing_text, say FoundPricing s)
      | Inl e \<Rightarrow>
          if e = NoSuchElementException then (Inr [], say NoPricing s)
          else (Inl e, s))"

definition details_try ::
  "world \<Rightarrow> pystr \<Rightarrow> pystr \<Rightarrow> tile \<Rightarrow> state \<Rightarrow> exn option \<times> state" where
  "details_try w product_name product_folder t s =
     (case item_detail_text t of
        Inl e \<Rightarrow> (Some e, s)
      | Inr detail_text \<Rightarrow>
          (case read_pricing t s of
             (Inl e, s1) \<Rightarrow> (Some e, s1)
           | (Inr pricing_text, s1) \<Rightarrow>
               (let csv_filename = path_join product_folder (lit ''product_details.csv'');
                    detail_lines = py_split 10 (strip detail_text);
                    pricing_lines = (if pricing_text \<noteq> []
                                     then py_split 10 (strip pricing_text) else [])
                in if open_fails w csv_filename then (Some OSError, s1)
                   else
                     (case write_rows (csv_rows product_name pricing_lines detail_lines) of
                        (None, written) \<Rightarrow>
                          (None, say (SavedDetails csv_filename)
                             (s1\<lparr>files := (files s1)(csv_filename \<mapsto> CsvFile written)\<rparr>))
                      | (Some e, written) \<Rightarrow>
                          (Some e,
                           s1\<lparr>files := (files s1)(csv_filename \<mapsto> CsvFile written)\<rparr>)))))"

definition save_details ::
  "world \<Rightarrow> pystr \<Rightarrow> pystr \<Rightarrow> tile \<Rightarrow> state \<Rightarrow> exn option \<times> state" where
  "save_details w product_name product_folder t s =
     (case details_try w product_name product_folder t s of
        (None, s1) \<Rightarrow> (None, s1)
      | (Some e, s1) \<Rightarrow>
          if e = NoSuchElementException then (None, say NoItemDetail s1)
          else (Some e, s1))"

section \<open>One product, and the run over the page\<close>

text \<open>The body of the \<open>try\<close> of one turn of the loop over the tiles.\<close>

definition extract_steps :: "world \<Rightarrow> nat \<Rightarrow> tile \<Rightarrow> state \<Rightarrow> exn option \<times> state" where
  "extract_steps w index t s =
     (case scroll_tile t of
        Some e \<Rightarrow> (Some e, s)
      | None \<Rightarrow>
          (case resolve_name w index t (say ExtractingProductName s) of
             (Inl e, s1) \<Rightarrow> (Some e, s1)
           | (Inr (product_name, product_folder), s1) \<Rightarrow>
               (case extract_main_image w product_folder t (say Step1 s1) of
                  (Some e, s2) \<Rightarrow> (Some e, s2)
                | (None, s2) \<Rightarrow>
                    (case process_swatches w product_folder t (say Step2 s2) of
                       (Some e, s3) \<Rightarrow> (Some e, s3)
                     | (None, s3) \<Rightarrow>
                         (case save_details w product_name product_folder t (say Step3 s3) of
                            (Some e, s4) \<Rightarrow> (Some e, s4)
                          | (None, s4) \<Rightarrow>
                              (None, say (CompletedProduct index product_name) s4))))))"

text \<open>
  One turn of the loop over the tiles, with its \<open>except Exception\<close>: the exception the
  turn raises to the loop (\<open>None\<close> when it ends normally), and the state it leaves.
\<close>

definition product_turn :: "world \<Rightarrow> nat \<Rightarrow> tile \<Rightarrow> state \<Rightarrow> exn option \<times> state" where
  "product_turn w index t s =
     (case extract_steps w index t (say (ProcessingProduct index) s) of
        (None, s1) \<Rightarrow> (None, s1)
      | (Some e, s1) \<Rightarrow> (None, say (ErrorProcessingProduct index e) s1))"

text \<open>The state one turn of the loop leaves.\<close>

definition extract_product :: "world \<Rightarrow> nat \<Rightarrow> tile \<Rightarrow> state \<Rightarrow> state" where
  "extract_product w index t s = snd (product_turn w index t s)"

text \<open>
  \<open>for index, tile in enumerate(tiles, 1)\<close>, from a given index: a turn that raises
  ends the loop.
\<close>

fun process_tiles :: "world \<Rightarrow> nat \<Rightarrow> tile list \<Rightarrow> state \<Rightarrow> exn option \<times> state" where
  "process_tiles w index [] s = (None, s)"
| "process_tiles w index (t # ts) s =
     (case product_turn w index t s of
        (Some e, s1) \<Rightarrow> (Some e, s1)
      | (None, s1) \<Rightarrow> process_tiles w (Suc index) ts s1)"

text \<open>The slice \<open>xs[:k]\<close>; a negative \<open>k\<close> counts from the end.\<close>

definition slice_to :: "int \<Rightarrow> 'a list \<Rightarrow> 'a list" where
  "slice_to k xs = (if k < 0 then take (length xs - nat (- k)) xs else take (nat k) xs)"

text \<open>
  The page as the driver sees it: whether loading it raises, and the tiles the wait
  finds (or the exception it ends with).
\<close>

record page =
  get_page :: "exn option"
  product_tiles :: "exn + tile list"

definition tiles_to_process :: "int \<Rightarrow> tile list \<Rightarrow> tile list" where
  "tiles_to_process number_to_scrape tiles =
     (let total_products_found = int (length tiles);
          products_to_process = min number_to_scrape total_products_found
      in slice_to products_to_process tiles)"

definition report_failure :: "exn \<Rightarrow> state \<Rightarrow> state" where
  "report_failure e s =
     (if e = TimeoutException then say TimeoutLoading s else say (ErrorOccurred e) s)"

text \<open>The run, with the number of products to scrape as a parameter.\<close>

definition scrape :: "world \<Rightarrow> int \<Rightarrow> page \<Rightarrow> state \<Rightarrow> state" where
  "scrape w number_to_scrape pg s =
     say BrowserClosed
       (case get_page pg of
          Some e \<Rightarrow> report_failure e s
        | None \<Rightarrow>
            (case product_tiles pg of
               Inl e \<Rightarrow> report_failure e s
             | Inr tiles \<Rightarrow>
                 (let s1 = say (FoundTiles (length tiles)) s;
                      s2 = say (WillScrape (min number_to_scrape (int (length tiles)))) s1
                  in case process_tiles w 1 (tiles_to_process number_to_scrape tiles) s2 of
                       (Some e, s3) \<Rightarrow> report_failure e s3
                     | (None, s3) \<Rightarrow> say ExecutionCompleted s3)))"

definition NUMBER_OF_PRODUCTS_TO_SCRAPE :: int where
  "NUMBER_OF_PRODUCTS_TO_SCRAPE = 224"

definition main :: "world \<Rightarrow> page \<Rightarrow> state \<Rightarrow> state" where
  "main w pg s = scrape w NUMBER_OF_PRODUCTS_TO_SCRAPE pg s"

section \<open>Notions and inputs used in the statements\<close>

text \<open>
  A product name of 109 characters whose 100th character is a space.
\<close>

definition long_name :: pystr where
  "long_name = lit ''Harbor Town Power Rocking Recliner with Headrest and Lumbar in Premium Top Grain Leather and Walnut Wood Trim''"

text \<open>
  The fields read from one block of text: the loop over the lines of the trimmed block,
  numbered from 1, with an empty writer.
\<close>

definition record_fields :: "pystr \<Rightarrow> pystr \<Rightarrow> row list" where
  "record_fields word block_text = write_lines word 1 (py_split 10 (strip block_text)) []"

text \<open>The row of one non-blank line, given the number the loop has for it.\<close>

definition line_row :: "pystr \<Rightarrow> nat \<times> pystr \<Rightarrow> row" where
  "line_row word p =
     (let line = strip (snd p)
      in if 58 \<in> set line
         then (strip (takeWhile (\<lambda>c. c \<noteq> 58) line), strip (tl (dropWhile (\<lambda>c. c \<noteq> 58) line)))
         else (word @ lit '' '' @ str (fst p), line))"

text \<open>
  The number that C2 gives the line at (0-based) position \<open>k\<close>: its number when only
  the non-blank lines are counted, from 1.
\<close>

definition nonblank_ordinal :: "pystr list \<Rightarrow> nat \<Rightarrow> nat" where
  "nonblank_ordinal lines k = length (filter (\<lambda>l. strip l \<noteq> []) (take (Suc k) lines))"

text \<open>A block of two lines without a colon, with a blank line between them.\<close>

definition gap_block :: pystr where
  "gap_block = lit ''A\<newline>\<newline>B''"

text \<open>An empty storage with a silent console.\<close>

definition empty_state :: state where
  "empty_state = \<lparr>files = Map.empty, dirs = {}, console = []\<rparr>"

text \<open>
  A world where every request is answered with the given status and four bytes, and
  where the storage never fails; and one where every request times out.
\<close>

definition world_status :: "int \<Rightarrow> world" where
  "world_status c =
     \<lparr>requests_get = (\<lambda>url. Inr \<lparr>status_code = c, content = ''JPEG''\<rparr>),
      open_fails = (\<lambda>path. False), makedirs_fails = (\<lambda>path. False)\<rparr>"

definition failing_world :: world where
  "failing_world =
     \<lparr>requests_get = (\<lambda>url. Inl TimeoutException),
      open_fails = (\<lambda>path. False), makedirs_fails = (\<lambda>path. False)\<rparr>"

definition example_url :: pystr where
  "example_url = lit ''https://cdn.example.com/recliner.jpg''"

definition example_path :: pystr where
  "example_path = lit ''scraped_products/Recliner/main_image.jpg''"

text \<open>The indices of the products the console reports as being processed, in order.\<close>

definition products_reported :: "report list \<Rightarrow> nat list" where
  "products_reported rs =
     concat (map (\<lambda>r. case r of ProcessingProduct i \<Rightarrow> [i] | _ \<Rightarrow> []) rs)"

text \<open>
  A tile with a name, a main image, no swatches, two lines of details and no pricing
  element; the same tile with a pricing element; a page of ten tiles.
\<close>

definition plain_tile :: tile where
  "plain_tile =
     \<lparr>scroll_tile = None,
      product_name_text = Inr (lit ''Test Chair''),
      main_image = Inr \<lparr>src = Inr (Some example_url), data_src = Inr None\<rparr>,
      cover_swatch_lists = Inr [],
      item_detail_text = Inr (lit ''Material: Fabric\<newline>Weight: 20 lbs''),
      item_pricing_text = Inl NoSuchElementException\<rparr>"

definition ten_tiles :: page where
  "ten_tiles = \<lparr>get_page = None, product_tiles = Inr (replicate 10 plain_tile)\<rparr>"


definition chair_folder :: pystr where
  "chair_folder = lit ''scraped_products/Test Chair''"

text \<open>The number a string of decimal digits stands for.\<close>

definition digits_value :: "pystr \<Rightarrow> nat" where
  "digits_value ds = foldl (\<lambda>a d. 10 * a + (d - 48)) 0 ds"

text \<open>
  Three swatch buttons in two lists: the first shows a red chair, the second cannot be
  clicked (the click is intercepted and the script click raises), the third shows a blue
  chair; a world that serves a different image for each of the two URLs.
\<close>

definition red_button :: button where
  "red_button =
     \<lparr>scroll_button = None, click = None, script_click = None,
      image_after_click =
        Inr \<lparr>src = Inr (Some (lit ''https://cdn.example.com/red.jpg'')), data_src = Inr None\<rparr>\<rparr>"

definition stuck_button :: button where
  "stuck_button =
     \<lparr>scroll_button = None, click = Some ElementClickInterceptedException,
      script_click = Some OtherException,
      image_after_click =
        Inr \<lparr>src = Inr (Some (lit ''https://cdn.example.com/green.jpg'')), data_src = Inr None\<rparr>\<rparr>"

definition blue_button :: button where
  "blue_button =
     \<lparr>scroll_button = None, click = Some ElementClickInterceptedException,
      script_click = None,
      image_after_click =
        Inr \<lparr>src = Inr None, data_src = Inr (Some (lit ''https://cdn.example.com/blue.jpg''))\<rparr>\<rparr>"

definition colour_world :: world where
  "colour_world =
     \<lparr>requests_get = (\<lambda>url. Inr \<lparr>status_code = 200,
         content = (if url = lit ''https://cdn.example.com/red.jpg'' then ''RED'' else ''BLUE'')\<rparr>),
      open_fails = (\<lambda>path. False), makedirs_fails = (\<lambda>path. False)\<rparr>"

definition swatch_tile :: tile where
  "swatch_tile =
     plain_tile\<lparr>cover_swatch_lists := Inr (map Inr [[red_button, stuck_button], [blue_button]])\<rparr>"

text \<open>
  Between two states, every file is as before or holds an image: no record was written.
\<close>

definition images_only :: "state \<Rightarrow> state \<Rightarrow> bool" where
  "images_only s s' \<longleftrightarrow> (\<forall>p. files s' p = files s p \<or> (\<exists>b. files s' p = Some (ImageFile b)))"

text \<open>
  A tile whose name consists of removed characters only, with a main image, one swatch
  and two lines of details.
\<close>

definition nameless_tile :: tile where
  "nameless_tile =
     plain_tile\<lparr>product_name_text := Inr (lit '' ?? ''),
                cover_swatch_lists := Inr [Inr [red_button]]\<rparr>"

text \<open>A tile without a detail element, with a main image and one swatch.\<close>

definition bare_tile :: tile where
  "bare_tile =
     plain_tile\<lparr>cover_swatch_lists := Inr [Inr [red_button]],
                item_detail_text := Inl NoSuchElementException,
                item_pricing_text := Inr (lit ''$499.00'')\<rparr>"



text \<open>The console of the second state continues the console of the first.\<close>

definition console_grows :: "state \<Rightarrow> state \<Rightarrow> bool" where
  "console_grows s s' \<longleftrightarrow> take (length (console s)) (console s') = console s"



text \<open>No two whitespace characters in a row.\<close>

fun single_spaced :: "pystr \<Rightarrow> bool" where
  "single_spaced (c # d # cs) \<longleftrightarrow> \<not> (isspace c \<and> isspace d) \<and> single_spaced (d # cs)"
| "single_spaced cs \<longleftrightarrow> True"





section \<open>Basic facts\<close>

lemma str_small: "n < 10 \<Longrightarrow> str n = [48 + n]"
  by (simp add: str.simps)

lemma say_simps [simp]:
  "files (say r s) = files s" "dirs (say r s) = dirs s" "console (say r s) = console s @ [r]"
  by (simp_all add: say_def)

lemma extract_product_eq:
  "extract_product w index t s =
     (case extract_steps w index t (say (ProcessingProduct index) s) of
        (None, s1) \<Rightarrow> s1
      | (Some e, s1) \<Rightarrow> say (ErrorProcessingProduct index e) s1)"
  by (simp add: extract_product_def product_turn_def split: prod.splits option.splits)

lemma product_turn_returns: "fst (product_turn w index t s) = None"
  by (simp add: product_turn_def split: prod.splits option.splits)

lemma product_turn_eq: "product_turn w index t s = (None, extract_product w index t s)"
  using product_turn_returns [of w index t s] by (simp add: extract_product_def prod_eq_iff)

lemma process_tiles_enumerate:
  "process_tiles w index ts s =
     (None, foldl (\<lambda>s' p. extract_product w (fst p) (snd p) s') s (enumerate index ts))"
  by (induction ts arbitrary: index s) (simp_all add: product_turn_eq)

lemma write_rows_eq:
  "write_rows rows =
     (if list_all row_encodable rows then None else Some UnicodeEncodeError,
      takeWhile row_encodable rows)"
  by (induction rows) (simp_all split: prod.splits)

lemma write_lines_prepend:
  "write_lines word i lines (rows @ rows') = rows @ write_lines word i lines rows'"
  by (induction lines arbitrary: i rows') (simp_all add: Let_def writerow_def)

lemma write_lines_append:
  "write_lines word i lines rows = rows @ write_lines word i lines []"
  using write_lines_prepend [of word i lines rows "[]"] by simp

lemma write_lines_enumerate:
  "write_lines word i lines [] =
     map (line_row word) (filter (\<lambda>p. strip (snd p) \<noteq> []) (enumerate i lines))"
proof (induction lines arbitrary: i)
  case Nil
  show ?case by simp
next
  case (Cons l ls)
  show ?case
    by (subst write_lines.simps, subst write_lines_append)
       (simp add: Let_def writerow_def Cons.IH line_row_def)
qed

lemma sanitize_long_name:
  "sanitize_folder_name long_name =
     lit ''Harbor Town Power Rocking Recliner with Headrest and Lumbar in Premium Top Grain Leather and Walnut ''"
  by (simp add: sanitize_folder_name_def long_name_def remove_invalid_def invalid_chars_def
      strip_def isspace_def)

lemma sanitize_truncated_name:
  "sanitize_folder_name
     (lit ''Harbor Town Power Rocking Recliner with Headrest and Lumbar in Premium Top Grain Leather and Walnut '') =
     lit ''Harbor Town Power Rocking Recliner with Headrest and Lumbar in Premium Top Grain Leather and Walnut''"
  by (simp add: sanitize_folder_name_def remove_invalid_def invalid_chars_def
      strip_def isspace_def)

section \<open>What sanitizing does guarantee\<close>

lemma single_spaced_Cons:
  "single_spaced (c # cs) \<longleftrightarrow>
     (cs = [] \<or> \<not> (isspace c \<and> isspace (hd cs))) \<and> single_spaced cs"
  by (cases cs) auto

lemma single_spaced_drop: "single_spaced cs \<Longrightarrow> single_spaced (drop n cs)"
proof (induction n arbitrary: cs)
  case 0
  then show ?case by simp
next
  case (Suc n)
  then show ?case
    by (cases cs) (auto simp: single_spaced_Cons)
qed

lemma single_spaced_take: "single_spaced cs \<Longrightarrow> single_spaced (take n cs)"
proof (induction cs arbitrary: n)
  case Nil
  then show ?case by simp
next
  case (Cons c cs)
  show ?case
  proof (cases n)
    case 0
    then show ?thesis by simp
  next
    case (Suc m)
    have "take m cs = [] \<or> hd (take m cs) = hd cs"
      by (cases m; cases cs) simp_all
    with Cons show ?thesis
      using Suc by (auto simp: single_spaced_Cons)
  qed
qed

lemma rev_dropWhile_rev_take:
  "rev (dropWhile P (rev cs)) = take (length cs - length (takeWhile P (rev cs))) cs"
  by (simp add: dropWhile_eq_drop rev_drop)

lemma strip_take_drop:
  "strip s = take (length (dropWhile isspace s) -
                   length (takeWhile isspace (rev (dropWhile isspace s))))
               (drop (length (takeWhile isspace s)) s)"
  unfolding strip_def rev_dropWhile_rev_take by (simp add: dropWhile_eq_drop)

lemma single_spaced_strip: "single_spaced s \<Longrightarrow> single_spaced (strip s)"
  by (subst strip_take_drop) (intro single_spaced_take single_spaced_drop)

lemma set_strip: "set (strip s) \<subseteq> set s"
  by (subst strip_take_drop) (meson set_drop_subset set_take_subset subset_trans)

lemma strip_no_leading: "strip s \<noteq> [] \<Longrightarrow> \<not> isspace (hd (strip s))"
proof -
  assume ne: "strip s \<noteq> []"
  let ?d = "dropWhile isspace s"
  have "?d = [] \<Longrightarrow> strip s = []"
    by (simp only: strip_def rev.simps dropWhile.simps)
  with ne have d: "?d \<noteq> []"
    by blast
  obtain k where k: "strip s = take k ?d"
    unfolding strip_def rev_dropWhile_rev_take by blast
  with ne have "hd (strip s) = hd ?d"
    by (cases k; cases ?d) simp_all
  with d show ?thesis
    by (simp add: hd_dropWhile)
qed

lemma strip_no_trailing: "strip s \<noteq> [] \<Longrightarrow> \<not> isspace (last (strip s))"
proof -
  assume ne: "strip s \<noteq> []"
  let ?r = "dropWhile isspace (rev (dropWhile isspace s))"
  from ne have r: "?r \<noteq> []"
    by (simp add: strip_def)
  have "last (strip s) = hd ?r"
    using r by (simp add: strip_def last_rev)
  with r show ?thesis
    by (simp add: hd_dropWhile)
qed

lemma collapse_spaces_head:
  "cs \<noteq> [] \<Longrightarrow> \<not> isspace (hd cs) \<Longrightarrow>
   collapse_spaces cs \<noteq> [] \<and> hd (collapse_spaces cs) = hd cs"
  by (cases cs) simp_all

lemma single_spaced_collapse: "single_spaced (collapse_spaces cs)"
proof (induction cs rule: collapse_spaces.induct)
  case 1
  show ?case by simp
next
  case (2 c cs)
  show ?case
  proof (cases "isspace c")
    case True
    let ?d = "dropWhile isspace cs"
    have "collapse_spaces ?d = [] \<or> \<not> isspace (hd (collapse_spaces ?d))"
    proof (cases "?d = []")
      case True
      then have "collapse_spaces ?d = []"
        by (simp only: collapse_spaces.simps)
      then show ?thesis by blast
    next
      case False
      then have "\<not> isspace (hd ?d)"
        by (rule hd_dropWhile)
      with False show ?thesis
        using collapse_spaces_head [of ?d] by simp
    qed
    with True 2 show ?thesis
      by (auto simp: single_spaced_Cons)
  next
    case False
    with 2 show ?thesis
      by (simp add: single_spaced_Cons)
  qed
qed

lemma collapse_spaces_chars:
  "x \<in> set (collapse_spaces cs) \<Longrightarrow> x = 32 \<or> (x \<in> set cs \<and> \<not> isspace x)"
proof (induction cs rule: collapse_spaces.induct)
  case 1
  then show ?case by simp
next
  case (2 c cs)
  show ?case
  proof (cases "isspace c")
    case True
    with 2 show ?thesis
      by (auto dest: set_dropWhileD)
  next
    case False
    with 2 show ?thesis
      by auto
  qed
qed

lemma sanitize_chars:
  assumes "c \<in> set (sanitize_folder_name x)"
  shows "c \<notin> set invalid_chars \<and> (isspace c \<longrightarrow> c = 32)"
proof -
  let ?n = "strip (collapse_spaces (remove_invalid x))"
  have "set (sanitize_folder_name x) \<subseteq> set ?n"
    by (auto simp: sanitize_folder_name_def Let_def dest: in_set_takeD)
  with assms have "c \<in> set (collapse_spaces (remove_invalid x))"
    using set_strip by blast
  then have "c = 32 \<or> (c \<in> set (remove_invalid x) \<and> \<not> isspace c)"
    by (rule collapse_spaces_chars)
  then show ?thesis
    by (auto simp: remove_invalid_def invalid_chars_def)
qed

lemma sanitize_guarantees:
  "set (sanitize_folder_name x) \<inter> set invalid_chars = {}
   \<and> length (sanitize_folder_name x) \<le> 100
   \<and> (sanitize_folder_name x = [] \<or> \<not> isspace (hd (sanitize_folder_name x)))
   \<and> single_spaced (sanitize_folder_name x)"
proof -
  let ?n = "strip (collapse_spaces (remove_invalid x))"
  have a: "set (sanitize_folder_name x) \<inter> set invalid_chars = {}"
    using sanitize_chars [of _ x] by blast
  have b: "length (sanitize_folder_name x) \<le> 100"
    by (simp add: sanitize_folder_name_def Let_def)
  have "?n = [] \<or> \<not> isspace (hd ?n)"
    using strip_no_leading by blast
  then have c: "sanitize_folder_name x = [] \<or> \<not> isspace (hd (sanitize_folder_name x))"
    by (auto simp: sanitize_folder_name_def Let_def)
  have "single_spaced ?n"
    by (intro single_spaced_strip single_spaced_collapse)
  then have d: "single_spaced (sanitize_folder_name x)"
    by (simp add: sanitize_folder_name_def Let_def single_spaced_take)
  from a b c d show ?thesis by blast
qed

lemma sanitize_no_trailing_unless_cut:
  assumes "length (strip (collapse_spaces (remove_invalid x))) \<le> 100"
    and "sanitize_folder_name x \<noteq> []"
  shows "\<not> isspace (last (sanitize_folder_name x))"
  using assms strip_no_trailing [of "collapse_spaces (remove_invalid x)"]
  by (simp add: sanitize_folder_name_def Let_def)

lemma collapse_spaces_fixed:
  "(\<forall>c \<in> set cs. isspace c \<longrightarrow> c = 32) \<Longrightarrow> single_spaced cs \<Longrightarrow> collapse_spaces cs = cs"
proof (induction cs)
  case Nil
  show ?case by simp
next
  case (Cons c cs)
  from Cons.prems have tl: "collapse_spaces cs = cs"
    by (intro Cons.IH) (auto simp: single_spaced_Cons)
  show ?case
  proof (cases "isspace c")
    case True
    with Cons.prems have "c = 32" and "cs = [] \<or> \<not> isspace (hd cs)"
      by (auto simp: single_spaced_Cons)
    then have "dropWhile isspace cs = cs"
      by (cases cs) auto
    with True \<open>c = 32\<close> tl show ?thesis
      by simp
  next
    case False
    with tl show ?thesis by simp
  qed
qed

lemma strip_fixed:
  assumes "cs = [] \<or> (\<not> isspace (hd cs) \<and> \<not> isspace (last cs))"
  shows "strip cs = cs"
proof (cases "cs = []")
  case True
  then show ?thesis by (simp add: strip_def)
next
  case False
  with assms have h: "\<not> isspace (hd cs)" and l: "\<not> isspace (last cs)"
    by blast+
  from False h have a: "dropWhile isspace cs = cs"
    by (cases cs) auto
  from False l have "\<not> isspace (hd (rev cs))"
    by (simp add: hd_rev)
  with False have "dropWhile isspace (rev cs) = rev cs"
    by (cases "rev cs") auto
  with a show ?thesis
    by (simp add: strip_def)
qed

lemma sanitize_idempotent_unless_trailing:
  assumes "sanitize_folder_name x = [] \<or> \<not> isspace (last (sanitize_folder_name x))"
  shows "sanitize_folder_name (sanitize_folder_name x) = sanitize_folder_name x"
proof -
  let ?y = "sanitize_folder_name x"
  note g = sanitize_guarantees [of x]
  have a: "remove_invalid ?y = ?y"
    unfolding remove_invalid_def using sanitize_chars [of _ x] by (simp add: filter_id_conv)
  have b: "collapse_spaces ?y = ?y"
    using sanitize_chars [of _ x] g by (intro collapse_spaces_fixed) blast+
  have c: "strip ?y = ?y"
    using assms g by (intro strip_fixed) blast
  from g have d: "length ?y \<le> 100"
    by blast
  have "sanitize_folder_name ?y = (if length ?y > 100 then take 100 ?y else ?y)"
    by (subst (1) sanitize_folder_name_def) (simp only: Let_def a b c)
  with d show ?thesis
    by simp
qed

section \<open>C3: what the sanitized name contains\<close>

text \<open>
  C3 says that the result of \<open>sanitize_folder_name\<close> has none of the nine invalid
  characters, at most 100 characters, no leading or trailing whitespace and no two
  whitespace characters in a row. The name is trimmed first and cut to 100 characters
  afterwards, so the cut can end on a space: the sanitized \<open>long_name\<close> is not empty and
  its last character is whitespace.
\<close>

theorem sanitize_keeps_trailing_space:
  "sanitize_folder_name long_name \<noteq> [] \<and> isspace (last (sanitize_folder_name long_name))"
  unfolding sanitize_long_name by (simp add: isspace_def)

section \<open>C4: sanitizing twice\<close>

text \<open>
  C4 says that \<open>sanitize_folder_name\<close> is idempotent. On \<open>long_name\<close> a second pass
  trims the space the cut of the first pass left at the end, and the two results differ.
\<close>

theorem sanitize_not_idempotent:
  "sanitize_folder_name (sanitize_folder_name long_name) \<noteq> sanitize_folder_name long_name"
proof -
  have "sanitize_folder_name (sanitize_folder_name long_name) =
     lit ''Harbor Town Power Rocking Recliner with Headrest and Lumbar in Premium Top Grain Leather and Walnut''"
    by (simp only: sanitize_long_name sanitize_truncated_name)
  then show ?thesis
    by (simp add: sanitize_long_name)
qed

section \<open>C2: the number in a positional label\<close>

text \<open>
  C2 says that a non-blank line without a colon gets the label made of the word and the
  line's number counted over the non-blank lines only. The loop numbers the lines with
  \<open>enumerate(lines, 1)\<close> before it looks at them, so the number is the position of the
  line among all lines of the trimmed block, the blank ones included: the fields of a
  block are the rows of its non-blank lines, each with the position of its line, and
  the line at (0-based) position \<open>k\<close>, if it is non-blank and has no colon, is filed
  under the word followed by \<open>k + 1\<close>.
\<close>

theorem fallback_label_position:
  "record_fields word block_text =
     map (line_row word)
       (filter (\<lambda>p. strip (snd p) \<noteq> []) (enumerate 1 (py_split 10 (strip block_text))))
   \<and> (\<forall>k < length (py_split 10 (strip block_text)).
        strip (py_split 10 (strip block_text) ! k) \<noteq> [] \<and>
        58 \<notin> set (strip (py_split 10 (strip block_text) ! k)) \<longrightarrow>
        (word @ lit '' '' @ str (Suc k), strip (py_split 10 (strip block_text) ! k))
          \<in> set (record_fields word block_text))"
proof -
  let ?lines = "py_split 10 (strip block_text)"
  have eq: "record_fields word block_text =
     map (line_row word) (filter (\<lambda>p. strip (snd p) \<noteq> []) (enumerate 1 ?lines))"
    by (simp add: record_fields_def write_lines_enumerate)
  have "(word @ lit '' '' @ str (Suc k), strip (?lines ! k)) \<in> set (record_fields word block_text)"
    if k: "k < length ?lines" and nb: "strip (?lines ! k) \<noteq> []"
      and nc: "58 \<notin> set (strip (?lines ! k))" for k
  proof -
    have "(Suc k, ?lines ! k) \<in> set (enumerate 1 ?lines)"
      using k by (simp add: in_set_enumerate_eq)
    then have "line_row word (Suc k, ?lines ! k) \<in> set (record_fields word block_text)"
      using nb unfolding eq by (auto simp: image_iff)
    then show ?thesis
      using nc by (simp add: line_row_def)
  qed
  with eq show ?thesis by blast
qed

text \<open>The block \<open>A\<close>, blank, \<open>B\<close>: the line \<open>B\<close> is at position 2 and is filed as \<open>Detail 3\<close>.\<close>

theorem fallback_label_position_witness:
  "2 < length (py_split 10 (strip gap_block))
   \<and> (lit ''Detail 3'', lit ''B'') \<in> set (record_fields (lit ''Detail'') gap_block)"
proof -
  have h: "2 < length (py_split 10 (strip gap_block))"
    "strip (py_split 10 (strip gap_block) ! 2) \<noteq> [] \<and>
     58 \<notin> set (strip (py_split 10 (strip gap_block) ! 2))"
    by (simp_all add: gap_block_def strip_def isspace_def)
  have l: "lit ''Detail'' @ lit '' '' @ str (Suc 2) = lit ''Detail 3''"
    "strip (py_split 10 (strip gap_block) ! 2) = lit ''B''"
    by (simp_all add: gap_block_def strip_def isspace_def str_small)
  from fallback_label_position [of "lit ''Detail''" gap_block] h
  have "(lit ''Detail'' @ lit '' '' @ str (Suc 2), strip (py_split 10 (strip gap_block) ! 2))
          \<in> set (record_fields (lit ''Detail'') gap_block)"
    by blast
  with h(1) show ?thesis
    unfolding l by blast
qed

text \<open>
  Against C2 as it is stated: in the same block \<open>B\<close> is the second non-blank line, and
  its label is \<open>Detail 3\<close>, not \<open>Detail 2\<close>.
\<close>

theorem fallback_label_counts_blank_lines:
  "strip (py_split 10 (strip gap_block) ! 2) = lit ''B''
   \<and> nonblank_ordinal (py_split 10 (strip gap_block)) 2 = 2
   \<and> record_fields (lit ''Detail'') gap_block =
       [(lit ''Detail 1'', lit ''A''), (lit ''Detail 3'', lit ''B'')]"
  by (simp add: record_fields_def gap_block_def nonblank_ordinal_def strip_def isspace_def
      writerow_def str_small)

section \<open>C6: what a download writes\<close>

text \<open>
  C6 says that a fetch ending with any success status of the 2xx family writes the
  payload to the destination and reports success, and that every other outcome writes
  nothing and reports failure. The test of the code is \<open>status_code == 200\<close>. With the
  status 200, and a destination that can be opened, the payload replaces whatever the
  destination held, the call returns True and the download is reported; when the request
  raises, its status is not 200 or the destination cannot be opened, the call returns
  False and files and folders are as before.
\<close>

theorem download_image_outcome:
  "(\<forall>resp. requests_get w url = Inr resp \<and> status_code resp = 200 \<and>
       \<not> open_fails w filename \<longrightarrow>
       fst (download_image w url filename s) = True \<and>
       files (snd (download_image w url filename s)) =
         (files s)(filename \<mapsto> ImageFile (content resp)) \<and>
       console (snd (download_image w url filename s)) =
         console s @ [Downloaded filename])
   \<and> ((\<forall>resp. requests_get w url = Inr resp \<longrightarrow> status_code resp \<noteq> 200) \<or>
       open_fails w filename \<longrightarrow>
       fst (download_image w url filename s) = False \<and>
       files (snd (download_image w url filename s)) = files s \<and>
       dirs (snd (download_image w url filename s)) = dirs s)"
  by (auto simp: download_image_def split: sum.splits)

text \<open>A request answered with 200, and a request that times out.\<close>

theorem download_image_outcome_witness:
  "fst (download_image (world_status 200) example_url example_path empty_state) = True
   \<and> files (snd (download_image (world_status 200) example_url example_path empty_state)) =
       [example_path \<mapsto> ImageFile ''JPEG'']
   \<and> fst (download_image failing_world example_url example_path empty_state) = False
   \<and> files (snd (download_image failing_world example_url example_path empty_state)) =
       Map.empty"
proof -
  have ok: "requests_get (world_status 200) example_url =
              Inr \<lparr>status_code = 200, content = ''JPEG''\<rparr>"
    "\<not> open_fails (world_status 200) example_path"
    by (simp_all add: world_status_def)
  have bad: "\<forall>resp. requests_get failing_world example_url = Inr resp \<longrightarrow>
      status_code resp \<noteq> 200"
    by (simp add: failing_world_def)
  from download_image_outcome [of "world_status 200" example_url example_path empty_state] ok
  have a: "fst (download_image (world_status 200) example_url example_path empty_state) = True
     \<and> files (snd (download_image (world_status 200) example_url example_path empty_state)) =
       (files empty_state)(example_path \<mapsto> ImageFile ''JPEG'')"
    by simp
  from download_image_outcome [of failing_world example_url example_path empty_state] bad
  have b: "fst (download_image failing_world example_url example_path empty_state) = False
     \<and> files (snd (download_image failing_world example_url example_path empty_state)) =
       files empty_state"
    by blast
  from a b show ?thesis
    by (simp add: empty_state_def)
qed

text \<open>
  Against C6 as it is stated: a response with the success status 201 and a payload leaves
  the storage empty, and the call returns False without a report.
\<close>

theorem download_partial_success_not_saved:
  "download_image (world_status 201) example_url example_path empty_state =
     (False, empty_state)"
  by (simp add: download_image_def world_status_def)

section \<open>The console reports of the products processed\<close>

lemma products_reported_append [simp]:
  "products_reported (rs @ rs') = products_reported rs @ products_reported rs'"
  by (simp add: products_reported_def)

lemma products_reported_single:
  "products_reported [r] = (case r of ProcessingProduct i \<Rightarrow> [i] | _ \<Rightarrow> [])"
  by (simp add: products_reported_def)

lemma products_reported_say:
  "products_reported (console (say r s)) =
     products_reported (console s) @ (case r of ProcessingProduct i \<Rightarrow> [i] | _ \<Rightarrow> [])"
  by (simp add: products_reported_single)

lemma pr_download [simp]:
  "products_reported (console (snd (download_image w u f s))) = products_reported (console s)"
  by (auto simp: download_image_def products_reported_single split: sum.splits)

lemma pr_makedirs [simp]:
  "products_reported (console (snd (makedirs w p s))) = products_reported (console s)"
  by (simp add: makedirs_def)

lemma pr_resolve_name_try [simp]:
  "products_reported (console (snd (resolve_name_try w i t s))) = products_reported (console s)"
  by (auto simp: resolve_name_try_def Let_def split_def products_reported_single
      split: sum.splits option.splits)

lemma pr_resolve_name [simp]:
  "products_reported (console (snd (resolve_name w i t s))) = products_reported (console s)"
  by (auto simp: resolve_name_def Let_def split_def products_reported_single
      split: sum.splits option.splits)

lemma pr_main_image_try [simp]:
  "products_reported (console (snd (main_image_try w f t s))) = products_reported (console s)"
  by (auto simp: main_image_try_def products_reported_single split: sum.splits option.splits)

lemma pr_extract_main_image [simp]:
  "products_reported (console (snd (extract_main_image w f t s))) =
     products_reported (console s)"
  by (auto simp: extract_main_image_def split_def products_reported_single
      split: option.splits)

lemma pr_swatch_try [simp]:
  "products_reported (console (snd (swatch_try w f i b s))) = products_reported (console s)"
  by (auto simp: swatch_try_def Let_def products_reported_single
      split: sum.splits option.splits)

lemma pr_process_swatch [simp]:
  "products_reported (console (process_swatch w f i b s)) = products_reported (console s)"
  by (auto simp: process_swatch_def split_def products_reported_single split: option.splits)

lemma pr_swatch_loop [simp]:
  "products_reported (console (swatch_loop w f i bs s)) = products_reported (console s)"
  by (induction bs arbitrary: i s) simp_all

lemma pr_swatches_try [simp]:
  "products_reported (console (snd (swatches_try w f t s))) = products_reported (console s)"
  by (auto simp: swatches_try_def products_reported_single split: sum.splits)

lemma pr_process_swatches [simp]:
  "products_reported (console (snd (process_swatches w f t s))) =
     products_reported (console s)"
  by (auto simp: process_swatches_def split_def products_reported_single
      split: option.splits)

lemma pr_read_pricing [simp]:
  "products_reported (console (snd (read_pricing t s))) = products_reported (console s)"
  by (auto simp: read_pricing_def products_reported_single split: sum.splits)

lemma pr_details_try [simp]:
  "products_reported (console (snd (details_try w n f t s))) = products_reported (console s)"
  by (auto simp: details_try_def Let_def split_def write_rows_eq products_reported_single
      split: sum.splits)

lemma pr_save_details [simp]:
  "products_reported (console (snd (save_details w n f t s))) =
     products_reported (console s)"
  by (auto simp: save_details_def split_def products_reported_single split: option.splits)

lemma pr_extract_steps [simp]:
  "products_reported (console (snd (extract_steps w i t s))) = products_reported (console s)"
  by (auto simp: extract_steps_def split_def products_reported_single
      split: sum.splits option.splits)

lemma pr_extract_product [simp]:
  "products_reported (console (extract_product w i t s)) =
     products_reported (console s) @ [i]"
  by (auto simp: extract_product_eq split_def products_reported_single
      split: option.splits)

lemma pr_process_tiles:
  "products_reported (console (snd (process_tiles w i ts s))) =
     products_reported (console s) @ [i ..< i + length ts]"
  by (induction ts arbitrary: i s) (simp_all add: product_turn_eq upt_rec)

lemma tiles_to_process_take:
  "0 \<le> limit \<Longrightarrow>
   tiles_to_process limit tiles = take (nat (min limit (int (length tiles)))) tiles"
  by (auto simp: tiles_to_process_def slice_to_def Let_def min_def)

lemma scrape_reports:
  assumes "0 \<le> limit" and "get_page pg = None" and "product_tiles pg = Inr tiles"
  shows "products_reported (console (scrape w limit pg s)) =
     products_reported (console s) @ [1 ..< Suc (nat (min limit (int (length tiles))))]"
proof -
  have "length (tiles_to_process limit tiles) = nat (min limit (int (length tiles)))"
    unfolding tiles_to_process_take [OF assms(1)] using assms(1) by (auto simp: min_def)
  moreover have "products_reported (console (scrape w limit pg s)) =
        products_reported (console s) @ [1 ..< 1 + length (tiles_to_process limit tiles)]"
    using assms(2,3)
    by (simp add: scrape_def Let_def process_tiles_enumerate products_reported_say
        pr_process_tiles [unfolded process_tiles_enumerate, simplified] del: say_simps)
  ultimately show ?thesis by simp
qed

lemma scrape_enumerate:
  assumes "0 \<le> limit" and "get_page pg = None" and "product_tiles pg = Inr tiles"
  shows "scrape w limit pg s =
     say BrowserClosed (say ExecutionCompleted
       (foldl (\<lambda>s' p. extract_product w (fst p) (snd p) s')
          (say (WillScrape (min limit (int (length tiles)))) (say (FoundTiles (length tiles)) s))
          (enumerate 1 (take (nat (min limit (int (length tiles)))) tiles))))"
  using assms(2,3)
  by (simp add: scrape_def Let_def process_tiles_enumerate tiles_to_process_take [OF assms(1)])

section \<open>C8: how many tiles are processed\<close>

text \<open>
  C8 says that the driver processes exactly \<open>min(limit, entriesFound)\<close> entries, in
  discovery order. For a limit that is a count (not negative) the tiles handed to the
  loop are the first \<open>min limit (length tiles)\<close> tiles found, and a run that finds the
  tiles reports, in this order, the products 1 up to that minimum as processed; so does
  the program itself, whose limit is 224.
\<close>

theorem catalog_limit:
  assumes "0 \<le> limit" and "get_page pg = None" and "product_tiles pg = Inr tiles"
  shows "tiles_to_process limit tiles = take (nat (min limit (int (length tiles)))) tiles
    \<and> length (tiles_to_process limit tiles) = nat (min limit (int (length tiles)))
    \<and> products_reported (console (scrape w limit pg s)) =
        products_reported (console s) @ [1 ..< Suc (nat (min limit (int (length tiles))))]
    \<and> products_reported (console (main w pg s)) =
        products_reported (console s) @ [1 ..< Suc (min 224 (length tiles))]"
proof -
  have t: "tiles_to_process limit tiles = take (nat (min limit (int (length tiles)))) tiles"
    using assms(1) by (rule tiles_to_process_take)
  have l: "length (tiles_to_process limit tiles) = nat (min limit (int (length tiles)))"
    unfolding t using assms(1) by (auto simp: min_def)
  have m: "nat (min 224 (int (length tiles))) = min 224 (length tiles)"
    by (simp add: min_def)
  have "products_reported (console (main w pg s)) =
        products_reported (console s) @ [1 ..< Suc (nat (min 224 (int (length tiles))))]"
    unfolding main_def NUMBER_OF_PRODUCTS_TO_SCRAPE_def
    by (rule scrape_reports [OF _ assms(2,3)]) simp
  with t l scrape_reports [OF assms, of w s] show ?thesis
    unfolding m by simp
qed

text \<open>Ten tiles on the page: a limit of 5 processes five of them, a limit of 20 all ten.\<close>

theorem catalog_limit_witness:
  "length (tiles_to_process 5 (replicate 10 plain_tile)) = 5
   \<and> products_reported (console (scrape (world_status 200) 5 ten_tiles empty_state)) =
       [1, 2, 3, 4, 5]
   \<and> length (tiles_to_process 20 (replicate 10 plain_tile)) = 10
   \<and> products_reported (console (scrape (world_status 200) 20 ten_tiles empty_state)) =
       [1, 2, 3, 4, 5, 6, 7, 8, 9, 10]"
proof -
  have p: "get_page ten_tiles = None" "product_tiles ten_tiles = Inr (replicate 10 plain_tile)"
    by (simp_all add: ten_tiles_def)
  have e: "products_reported (console empty_state) = []"
    by (simp add: empty_state_def products_reported_def)
  have u: "[1 ..< Suc 5] = [1, 2, 3, 4, 5]" "[1 ..< Suc 10] = [1, 2, 3, 4, 5, 6, 7, 8, 9, 10]"
    by (simp_all add: upt_rec)
  have five: "(0::int) \<le> 5" and twenty: "(0::int) \<le> 20"
    by simp_all
  from catalog_limit [OF five p, of "world_status 200" empty_state]
  have a: "length (tiles_to_process 5 (replicate 10 plain_tile)) = 5
    \<and> products_reported (console (scrape (world_status 200) 5 ten_tiles empty_state)) =
        [1 ..< Suc 5]"
    by (simp add: e)
  from catalog_limit [OF twenty p, of "world_status 200" empty_state]
  have b: "length (tiles_to_process 20 (replicate 10 plain_tile)) = 10
    \<and> products_reported (console (scrape (world_status 200) 20 ten_tiles empty_state)) =
        [1 ..< Suc 10]"
    by (simp add: e)
  from a b show ?thesis
    unfolding u by simp
qed

section \<open>Which rows can be written\<close>



lemma utf8_encodable_Cons [simp]:
  "utf8_encodable (c # cs) \<longleftrightarrow> (c < 55296 \<or> 57343 < c) \<and> utf8_encodable cs"
  by (simp add: utf8_encodable_def)




lemma py_split_not_Nil [simp]: "py_split sep s \<noteq> []"
  by (induction s) (auto split: list.splits)




section \<open>C7: the order of the rows of a saved record\<close>










section \<open>File names of the swatches\<close>

lemma digits_value_str: "digits_value (str n) = n"
proof (induction n rule: str.induct)
  case (1 n)
  show ?case
  proof (cases "n < 10")
    case True
    then show ?thesis
      by (simp add: str.simps digits_value_def)
  next
    case False
    with 1 have "digits_value (str (n div 10)) = n div 10"
      by simp
    with False show ?thesis
      by (subst str.simps) (simp add: digits_value_def)
  qed
qed

lemma str_inject: "str m = str n \<longleftrightarrow> m = n"
  by (metis digits_value_str)

lemma path_join_same_folder:
  "b \<noteq> [] \<Longrightarrow> hd b \<noteq> 47 \<Longrightarrow> b' \<noteq> [] \<Longrightarrow> hd b' \<noteq> 47 \<Longrightarrow>
   path_join a b = path_join a b' \<longleftrightarrow> b = b'"
  by (auto simp: path_join_def)

lemma swatch_filename_inject:
  "swatch_filename folder m = swatch_filename folder n \<longleftrightarrow> m = n"
  unfolding swatch_filename_def
  by (subst path_join_same_folder) (simp_all add: str_inject)

section \<open>Which files a step touches\<close>

lemma files_download_other:
  "p \<noteq> filename \<Longrightarrow> files (snd (download_image w u filename s)) p = files s p"
  by (auto simp: download_image_def split: sum.splits)

lemma files_download_own:
  "files s filename = files s' filename \<Longrightarrow>
   files (snd (download_image w u filename s)) filename =
   files (snd (download_image w u filename s')) filename"
  by (auto simp: download_image_def split: sum.splits)

lemma files_swatch_try_other:
  "p \<noteq> swatch_filename folder i \<Longrightarrow> files (snd (swatch_try w folder i b s)) p = files s p"
  by (auto simp: swatch_try_def Let_def files_download_other split: sum.splits option.splits)

lemma files_swatch_try_own:
  "files s (swatch_filename folder i) = files s' (swatch_filename folder i) \<Longrightarrow>
   files (snd (swatch_try w folder i b s)) (swatch_filename folder i) =
   files (snd (swatch_try w folder i b s')) (swatch_filename folder i)"
  by (auto simp: swatch_try_def Let_def intro: files_download_own
      split: sum.splits option.splits)

lemma files_process_swatch_other:
  "p \<noteq> swatch_filename folder i \<Longrightarrow> files (process_swatch w folder i b s) p = files s p"
  by (auto simp: process_swatch_def split_def files_swatch_try_other split: option.splits)

lemma fst_swatch_try_state:
  "fst (swatch_try w folder i b s) = fst (swatch_try w folder i b s')"
  by (auto simp: swatch_try_def Let_def split: sum.splits option.splits)

lemma files_process_swatch_own:
  assumes "files s (swatch_filename folder i) = files s' (swatch_filename folder i)"
  shows "files (process_swatch w folder i b s) (swatch_filename folder i) =
         files (process_swatch w folder i b s') (swatch_filename folder i)"
  using files_swatch_try_own [OF assms, of w b] fst_swatch_try_state [of w folder i b s s']
  by (auto simp: process_swatch_def split_def split: option.splits)

lemma files_swatch_loop_other:
  "(\<forall>k < length bs. p \<noteq> swatch_filename folder (i + k)) \<Longrightarrow>
   files (swatch_loop w folder i bs s) p = files s p"
proof (induction bs arbitrary: i s)
  case Nil
  show ?case by simp
next
  case (Cons b bs)
  have "p \<noteq> swatch_filename folder i"
    using Cons.prems by force
  moreover have "\<forall>k < length bs. p \<noteq> swatch_filename folder (Suc i + k)"
    using Cons.prems by force
  ultimately show ?case
    by (simp add: Cons.IH files_process_swatch_other)
qed

lemma files_swatch_loop_own:
  "k < length bs \<Longrightarrow>
   files (swatch_loop w folder i bs s) (swatch_filename folder (i + k)) =
   files (process_swatch w folder (i + k) (bs ! k) s) (swatch_filename folder (i + k))"
proof (induction bs arbitrary: i k s)
  case Nil
  then show ?case by simp
next
  case (Cons b bs)
  show ?case
  proof (cases k)
    case 0
    have "\<forall>j < length bs. swatch_filename folder i \<noteq> swatch_filename folder (Suc i + j)"
      by (simp add: swatch_filename_inject)
    then show ?thesis
      using 0 by (simp add: files_swatch_loop_other)
  next
    case (Suc j)
    with Cons.prems have j: "j < length bs"
      by simp
    have "files (process_swatch w folder i b s) (swatch_filename folder (Suc i + j)) =
          files s (swatch_filename folder (Suc i + j))"
      by (rule files_process_swatch_other) (simp add: swatch_filename_inject)
    then have "files (process_swatch w folder (Suc i + j) (bs ! j) (process_swatch w folder i b s))
            (swatch_filename folder (Suc i + j)) =
          files (process_swatch w folder (Suc i + j) (bs ! j) s) (swatch_filename folder (Suc i + j))"
      by (rule files_process_swatch_own)
    with Cons.IH [OF j, of "Suc i" "process_swatch w folder i b s"] show ?thesis
      using Suc by simp
  qed
qed

lemma collect_buttons_all:
  "collect_buttons (map Inr groups) acc = Inr (acc @ concat groups)"
  by (induction groups arbitrary: acc) simp_all

lemma swatches_try_found:
  assumes "cover_swatch_lists t = Inr (map Inr groups)" and "groups \<noteq> []"
  shows "swatches_try w folder t s =
     (None, swatch_loop w folder 1 (concat groups)
              (say (FoundSwatches (length (concat groups))) s))"
  using assms by (simp add: swatches_try_def collect_buttons_all)

section \<open>C5: the number in the name of a swatch image\<close>

text \<open>
  C5 says that the image captured after activating the k-th control, counted from 1 in
  discovery order over all swatch lists of the tile, is saved as \<open>swatch_<k>.jpg\<close>, and
  that a control that fails still uses up its number. With the buttons of all lists
  found, the file \<open>swatch_<k+1>.jpg\<close> holds after the step exactly what the turn for
  the button at (0-based) position \<open>k\<close> of the concatenated lists, run alone with the
  number \<open>k + 1\<close>, leaves there: its image when it captures one, the former content when
  it fails. No file other than those of the buttons is touched.
\<close>

theorem swatch_ordinals:
  assumes "cover_swatch_lists t = Inr (map Inr groups)" and "groups \<noteq> []"
  shows "(\<forall>k < length (concat groups).
            files (snd (process_swatches w folder t s)) (swatch_filename folder (Suc k)) =
            files (process_swatch w folder (Suc k) (concat groups ! k) s)
              (swatch_filename folder (Suc k)))
       \<and> (\<forall>p. (\<forall>k < length (concat groups). p \<noteq> swatch_filename folder (Suc k)) \<longrightarrow>
            files (snd (process_swatches w folder t s)) p = files s p)"
proof -
  let ?bs = "concat groups"
  let ?s0 = "say (FoundSwatches (length ?bs)) s"
  have step: "snd (process_swatches w folder t s) = swatch_loop w folder 1 ?bs ?s0"
    by (simp add: process_swatches_def swatches_try_found [OF assms])
  have own: "files (swatch_loop w folder 1 ?bs ?s0) (swatch_filename folder (Suc k)) =
      files (process_swatch w folder (Suc k) (?bs ! k) s) (swatch_filename folder (Suc k))"
    if "k < length ?bs" for k
  proof -
    have "files (swatch_loop w folder 1 ?bs ?s0) (swatch_filename folder (1 + k)) =
        files (process_swatch w folder (1 + k) (?bs ! k) ?s0) (swatch_filename folder (1 + k))"
      using that by (rule files_swatch_loop_own)
    also have "\<dots> = files (process_swatch w folder (1 + k) (?bs ! k) s)
        (swatch_filename folder (1 + k))"
      by (rule files_process_swatch_own) simp
    finally show ?thesis by simp
  qed
  have other: "files (swatch_loop w folder 1 ?bs ?s0) p = files s p"
    if "\<forall>k < length ?bs. p \<noteq> swatch_filename folder (Suc k)" for p
    using files_swatch_loop_other [of ?bs p folder 1 w ?s0] that by simp
  from own other show ?thesis
    unfolding step by blast
qed

text \<open>
  The three buttons: the first image is saved as \<open>swatch_1.jpg\<close>, the third as
  \<open>swatch_3.jpg\<close>, and there is no \<open>swatch_2.jpg\<close>.
\<close>

theorem swatch_ordinals_witness:
  "files (snd (process_swatches colour_world chair_folder swatch_tile empty_state))
     (lit ''scraped_products/Test Chair/swatch_1.jpg'') = Some (ImageFile ''RED'')
   \<and> files (snd (process_swatches colour_world chair_folder swatch_tile empty_state))
     (lit ''scraped_products/Test Chair/swatch_2.jpg'') = None
   \<and> files (snd (process_swatches colour_world chair_folder swatch_tile empty_state))
     (lit ''scraped_products/Test Chair/swatch_3.jpg'') = Some (ImageFile ''BLUE'')
   \<and> dom (files (snd (process_swatches colour_world chair_folder swatch_tile empty_state))) =
       {lit ''scraped_products/Test Chair/swatch_1.jpg'',
        lit ''scraped_products/Test Chair/swatch_3.jpg''}"
proof -
  have t: "cover_swatch_lists swatch_tile = Inr (map Inr [[red_button, stuck_button], [blue_button]])"
    "[[red_button, stuck_button], [blue_button]] \<noteq> []"
    by (simp_all add: swatch_tile_def)
  have n: "swatch_filename chair_folder (Suc 0) = lit ''scraped_products/Test Chair/swatch_1.jpg''"
    "swatch_filename chair_folder (Suc 1) = lit ''scraped_products/Test Chair/swatch_2.jpg''"
    "swatch_filename chair_folder (Suc 2) = lit ''scraped_products/Test Chair/swatch_3.jpg''"
    by (simp_all add: swatch_filename_def path_join_def chair_folder_def str_small)
  have r: "files (process_swatch colour_world chair_folder (Suc 0) red_button empty_state)
       (swatch_filename chair_folder (Suc 0)) = Some (ImageFile ''RED'')"
    "files (process_swatch colour_world chair_folder (Suc 1) stuck_button empty_state)
       (swatch_filename chair_folder (Suc 1)) = None"
    "files (process_swatch colour_world chair_folder (Suc 2) blue_button empty_state)
       (swatch_filename chair_folder (Suc 2)) = Some (ImageFile ''BLUE'')"
    by (simp_all add: process_swatch_def swatch_try_def activate_def image_url_def truthy_def
        download_image_def Let_def red_button_def stuck_button_def blue_button_def
        colour_world_def empty_state_def)
  note all = swatch_ordinals [OF t, of colour_world chair_folder empty_state, THEN conjunct1]
  have "files (snd (process_swatches colour_world chair_folder swatch_tile empty_state))
          (swatch_filename chair_folder (Suc 0)) = Some (ImageFile ''RED'')"
    using all [rule_format, of 0] r(1) by simp
  moreover have "files (snd (process_swatches colour_world chair_folder swatch_tile empty_state))
          (swatch_filename chair_folder (Suc 1)) = None"
    using all [rule_format, of 1] r(2) by simp
  moreover have "files (snd (process_swatches colour_world chair_folder swatch_tile empty_state))
          (swatch_filename chair_folder (Suc 2)) = Some (ImageFile ''BLUE'')"
    using all [rule_format, of 2] r(3) by simp
  moreover have "dom (files (snd (process_swatches colour_world chair_folder swatch_tile
          empty_state))) =
      {swatch_filename chair_folder (Suc 0), swatch_filename chair_folder (Suc 2)}"
    unfolding n
    by (simp add: process_swatches_def swatches_try_def swatch_tile_def plain_tile_def
        process_swatch_def swatch_try_def activate_def image_url_def truthy_def
        download_image_def Let_def red_button_def stuck_button_def blue_button_def
        colour_world_def empty_state_def swatch_filename_def path_join_def chair_folder_def
        str.simps insert_commute)
  ultimately show ?thesis
    unfolding n by blast
qed

section \<open>Which files the steps of a product touch\<close>

lemma files_makedirs [simp]: "files (snd (makedirs w p s)) = files s"
  by (simp add: makedirs_def)

lemma files_resolve_name_try [simp]: "files (snd (resolve_name_try w i t s)) = files s"
  by (auto simp: resolve_name_try_def Let_def split_def split: sum.splits option.splits)

lemma files_resolve_name [simp]: "files (snd (resolve_name w i t s)) = files s"
  by (auto simp: resolve_name_def Let_def split_def split: sum.splits option.splits)

lemma files_main_image_other:
  "p \<noteq> path_join folder (lit ''main_image.jpg'') \<Longrightarrow>
   files (snd (extract_main_image w folder t s)) p = files s p"
  by (auto simp: extract_main_image_def main_image_try_def files_download_other
      split: sum.splits option.splits)

lemma files_process_swatches_other:
  "(\<forall>n. p \<noteq> swatch_filename folder n) \<Longrightarrow>
   files (snd (process_swatches w folder t s)) p = files s p"
  by (auto simp: process_swatches_def swatches_try_def files_swatch_loop_other
      split: sum.splits)

lemma files_read_pricing [simp]: "files (snd (read_pricing t s)) = files s"
  by (auto simp: read_pricing_def split: sum.splits)

lemma files_save_details_other:
  "p \<noteq> path_join folder (lit ''product_details.csv'') \<Longrightarrow>
   files (snd (save_details w name folder t s)) p = files s p"
  by (auto simp: save_details_def details_try_def Let_def split_def write_rows_eq
      split: sum.splits)

lemma files_extract_steps_other:
  assumes "files (snd (extract_steps w i t s)) p \<noteq> files s p"
  shows "\<exists>name folder. fst (resolve_name w i t (say ExtractingProductName s)) = Inr (name, folder) \<and>
           (p = path_join folder (lit ''main_image.jpg'') \<or>
            p = path_join folder (lit ''product_details.csv'') \<or>
            (\<exists>n. p = swatch_filename folder n))"
proof (rule ccontr)
  assume no: "\<not> ?thesis"
  show False
  proof (cases "scroll_tile t")
    case (Some e)
    with assms show False
      by (simp add: extract_steps_def)
  next
    case None
    show False
    proof (cases "resolve_name w i t (say ExtractingProductName s)")
      case (Pair r s1)
      have f1: "files s1 = files s"
        using files_resolve_name [of w i t "say ExtractingProductName s"] Pair by simp
      show False
      proof (cases r)
        case (Inl e)
        with assms None Pair f1 show False
          by (simp add: extract_steps_def)
      next
        case (Inr nf)
        obtain name folder where nf: "nf = (name, folder)"
          by (cases nf)
        from no Pair Inr nf have p: "p \<noteq> path_join folder (lit ''main_image.jpg'')"
          "p \<noteq> path_join folder (lit ''product_details.csv'')"
          "\<forall>n. p \<noteq> swatch_filename folder n"
          by auto
        have "files (snd (extract_steps w i t s)) p = files s p"
          using None Pair Inr nf f1
          by (simp add: extract_steps_def split_def files_main_image_other [OF p(1)]
              files_process_swatches_other [OF p(3)] files_save_details_other [OF p(2)]
              split: option.splits)
        with assms show False by simp
      qed
    qed
  qed
qed

lemma path_join_root:
  "b \<noteq> [] \<Longrightarrow> hd b \<noteq> 47 \<Longrightarrow>
   path_join (lit ''scraped_products/'') b = path_join (lit ''scraped_products'') b"
  by (simp add: path_join_def)

lemma resolve_name_unsanitizable:
  assumes "product_name_text t = Inr raw" and "strip raw \<noteq> []"
    and "sanitize_folder_name (strip raw) = []"
  shows "resolve_name w i t s =
     (if makedirs_fails w (lit ''scraped_products/'')
      then (Inl OSError, say (ProductName (strip raw)) s)
      else (Inr (strip raw, lit ''scraped_products/''),
            say (CreatedFolder (lit ''scraped_products/''))
              ((say (ProductName (strip raw)) s)
                 \<lparr>dirs := insert (lit ''scraped_products/'') (dirs s)\<rparr>)))"
  using assms
  by (simp add: resolve_name_def resolve_name_try_def Let_def path_join_def makedirs_def
      say_def)

section \<open>C9: a name that sanitizes to nothing\<close>

text \<open>
  C9 says that a raw name which is not empty but whose sanitized form is empty gets no
  positional name, that its folder is the root \<open>scraped_products\<close> itself, and that its
  files are written directly into the root. For such a name the name step, when the
  folder can be made, returns the raw name (trimmed) and the folder \<open>scraped_products/\<close>;
  and every file that processing the tile changes is \<open>main_image.jpg\<close>,
  \<open>product_details.csv\<close> or some \<open>swatch_<n>.jpg\<close> directly under \<open>scraped_products\<close>.
\<close>

theorem unsanitizable_name_uses_root:
  assumes "product_name_text t = Inr raw" and "strip raw \<noteq> []"
    and "sanitize_folder_name (strip raw) = []"
  shows "(\<not> makedirs_fails w (lit ''scraped_products/'') \<longrightarrow>
            fst (resolve_name w i t s) = Inr (strip raw, lit ''scraped_products/''))
       \<and> (\<forall>p. files (extract_product w i t s) p \<noteq> files s p \<longrightarrow>
            p = path_join (lit ''scraped_products'') (lit ''main_image.jpg'') \<or>
            p = path_join (lit ''scraped_products'') (lit ''product_details.csv'') \<or>
            (\<exists>n. p = swatch_filename (lit ''scraped_products'') n))"
proof -
  have name: "\<not> makedirs_fails w (lit ''scraped_products/'') \<longrightarrow>
      fst (resolve_name w i t s) = Inr (strip raw, lit ''scraped_products/'')"
    by (simp add: resolve_name_unsanitizable [OF assms])
  have "p = path_join (lit ''scraped_products'') (lit ''main_image.jpg'') \<or>
        p = path_join (lit ''scraped_products'') (lit ''product_details.csv'') \<or>
        (\<exists>n. p = swatch_filename (lit ''scraped_products'') n)"
    if "files (extract_product w i t s) p \<noteq> files s p" for p
  proof -
    let ?s0 = "say (ProcessingProduct i) s"
    from that have "files (snd (extract_steps w i t ?s0)) p \<noteq> files ?s0 p"
      by (simp add: extract_product_eq split_def split: option.splits)
    then obtain name folder
      where r: "fst (resolve_name w i t (say ExtractingProductName ?s0)) = Inr (name, folder)"
        and p: "p = path_join folder (lit ''main_image.jpg'') \<or>
                p = path_join folder (lit ''product_details.csv'') \<or>
                (\<exists>n. p = swatch_filename folder n)"
      using files_extract_steps_other by blast
    from r have folder: "folder = lit ''scraped_products/''"
      by (simp add: resolve_name_unsanitizable [OF assms] split: if_splits)
    have sw: "swatch_filename (lit ''scraped_products/'') n =
        swatch_filename (lit ''scraped_products'') n" for n
      unfolding swatch_filename_def by (rule path_join_root) simp_all
    have mi: "path_join (lit ''scraped_products/'') (lit ''main_image.jpg'') =
        path_join (lit ''scraped_products'') (lit ''main_image.jpg'')"
      and cs: "path_join (lit ''scraped_products/'') (lit ''product_details.csv'') =
        path_join (lit ''scraped_products'') (lit ''product_details.csv'')"
      by (simp_all add: path_join_def)
    from p show ?thesis
      unfolding folder mi cs sw by blast
  qed
  with name show ?thesis by blast
qed

text \<open>
  The tile named \<open>??\<close>: its folder is the root, and its three files are in the root.
\<close>

theorem unsanitizable_name_uses_root_witness:
  "strip (lit '' ?? '') \<noteq> [] \<and> sanitize_folder_name (strip (lit '' ?? '')) = []
   \<and> fst (resolve_name colour_world 7 nameless_tile empty_state) =
       Inr (lit ''??'', lit ''scraped_products/'')
   \<and> dom (files (extract_product colour_world 7 nameless_tile empty_state)) =
       {lit ''scraped_products/main_image.jpg'', lit ''scraped_products/swatch_1.jpg'',
        lit ''scraped_products/product_details.csv''}"
proof -
  have h: "product_name_text nameless_tile = Inr (lit '' ?? '')"
    "strip (lit '' ?? '') \<noteq> []" "sanitize_folder_name (strip (lit '' ?? '')) = []"
    by (simp_all add: nameless_tile_def sanitize_folder_name_def remove_invalid_def
        invalid_chars_def strip_def isspace_def)
  have m: "\<not> makedirs_fails colour_world (lit ''scraped_products/'')"
    by (simp add: colour_world_def)
  have st: "strip (lit '' ?? '') = lit ''??''"
    by (simp add: strip_def isspace_def)
  from unsanitizable_name_uses_root [OF h, of colour_world 7 empty_state] m
  have r: "fst (resolve_name colour_world 7 nameless_tile empty_state) =
      Inr (strip (lit '' ?? ''), lit ''scraped_products/'')"
    by blast
  have sc: "scroll_tile nameless_tile = None"
    by (simp add: nameless_tile_def plain_tile_def)
  have d: "dom (files (extract_product colour_world 7 nameless_tile empty_state)) =
       {lit ''scraped_products/main_image.jpg'', lit ''scraped_products/swatch_1.jpg'',
        lit ''scraped_products/product_details.csv''}"
    apply (simp add: extract_product_eq extract_steps_def sc m
        resolve_name_unsanitizable [OF h])
    apply (simp add: nameless_tile_def plain_tile_def colour_world_def empty_state_def
        extract_main_image_def main_image_try_def image_url_def truthy_def example_url_def
        download_image_def process_swatches_def swatches_try_def process_swatch_def
        swatch_try_def activate_def red_button_def swatch_filename_def save_details_def
        details_try_def read_pricing_def Let_def path_join_def str.simps insert_commute
        write_rows_eq csv_rows_def writerow_def row_encodable_def)
    done
  from h(2,3) r d show ?thesis
    unfolding st by blast
qed

section \<open>Steps that write images only\<close>

lemma images_only_same: "files s' = files s \<Longrightarrow> images_only s s'"
  by (simp add: images_only_def)

lemma images_only_trans: "images_only s s' \<Longrightarrow> images_only s' s'' \<Longrightarrow> images_only s s''"
  unfolding images_only_def by metis

lemma images_only_download: "images_only s (snd (download_image w u f s))"
  by (auto simp: images_only_def download_image_def split: sum.splits)

lemma images_only_main_image: "images_only s (snd (extract_main_image w folder t s))"
  by (auto simp: extract_main_image_def main_image_try_def images_only_download
      images_only_same split: sum.splits option.splits
      intro: images_only_trans [OF images_only_download images_only_same])

lemma images_only_swatch_try: "images_only s (snd (swatch_try w folder i b s))"
  by (auto simp: swatch_try_def Let_def images_only_same split: sum.splits option.splits
      intro: images_only_trans [OF images_only_same images_only_download])

lemma images_only_process_swatch: "images_only s (process_swatch w folder i b s)"
  by (auto simp: process_swatch_def split_def images_only_swatch_try split: option.splits
      intro: images_only_trans [OF images_only_swatch_try images_only_same])

lemma images_only_swatch_loop: "images_only s (swatch_loop w folder i bs s)"
proof (induction bs arbitrary: i s)
  case Nil
  show ?case by (simp add: images_only_same)
next
  case (Cons b bs)
  show ?case
    using images_only_trans [OF images_only_process_swatch Cons.IH] by simp
qed

lemma images_only_process_swatches: "images_only s (snd (process_swatches w folder t s))"
  by (auto simp: process_swatches_def swatches_try_def images_only_same split: sum.splits
      intro: images_only_trans [OF images_only_same images_only_swatch_loop])

lemma save_details_absent:
  "item_detail_text t = Inl NoSuchElementException \<Longrightarrow>
   save_details w name folder t s = (None, say NoItemDetail s)"
  by (simp add: save_details_def details_try_def)

lemma images_only_extract_steps:
  assumes "item_detail_text t = Inl NoSuchElementException"
  shows "images_only s (snd (extract_steps w i t s))"
proof (cases "scroll_tile t")
  case (Some e)
  then show ?thesis
    by (simp add: extract_steps_def images_only_same)
next
  case None
  obtain r s1 where rn: "resolve_name w i t (say ExtractingProductName s) = (r, s1)"
    by (cases "resolve_name w i t (say ExtractingProductName s)")
  have f1: "files s1 = files s"
    using files_resolve_name [of w i t "say ExtractingProductName s"] rn by simp
  show ?thesis
  proof (cases r)
    case (Inl e)
    with None rn f1 show ?thesis
      by (simp add: extract_steps_def images_only_same)
  next
    case (Inr nf)
    obtain name folder where nf: "nf = (name, folder)"
      by (cases nf)
    let ?s2 = "snd (extract_main_image w folder t (say Step1 s1))"
    let ?s3 = "snd (process_swatches w folder t (say Step2 ?s2))"
    have a: "images_only s ?s2"
      by (rule images_only_trans [OF images_only_same images_only_main_image])
         (simp add: f1)
    have b: "images_only ?s2 ?s3"
      by (rule images_only_trans [OF images_only_same images_only_process_swatches]) simp
    have c: "images_only s ?s3"
      by (rule images_only_trans [OF a b])
    have d: "images_only s s4" if "files s4 = files ?s2" for s4
      by (rule images_only_trans [OF a images_only_same]) (rule that)
    have e: "images_only s s4" if "files s4 = files ?s3" for s4
      by (rule images_only_trans [OF c images_only_same]) (rule that)
    show ?thesis
      using None rn Inr nf
      by (auto simp: extract_steps_def split_def save_details_absent [OF assms] d e
          split: option.splits)
  qed
qed

section \<open>C10: a tile without a detail element\<close>

text \<open>
  C10 says that for a tile without a detail element the detail step creates no record
  file at all, not even one with the product name or the pricing, and that the images of
  the earlier steps stay. When the lookup of the detail element raises
  \<open>NoSuchElementException\<close>, the detail step returns normally, reports the missing element
  and leaves every file as it was; and any record found in the storage after the tile
  has been processed was there, with the same rows, before.
\<close>

theorem no_record_without_details:
  assumes "item_detail_text t = Inl NoSuchElementException"
  shows "fst (save_details w name folder t s) = None
       \<and> files (snd (save_details w name folder t s)) = files s
       \<and> console (snd (save_details w name folder t s)) = console s @ [NoItemDetail]
       \<and> (\<forall>p rows. files (extract_product w i t s) p = Some (CsvFile rows) \<longrightarrow>
            files s p = Some (CsvFile rows))"
proof -
  have "images_only (say (ProcessingProduct i) s)
          (snd (extract_steps w i t (say (ProcessingProduct i) s)))"
    using assms by (rule images_only_extract_steps)
  then have "images_only s (extract_product w i t s)"
    by (auto simp: extract_product_eq split_def images_only_def split: option.splits)
  then have "files s p = Some (CsvFile rows)"
    if "files (extract_product w i t s) p = Some (CsvFile rows)" for p rows
    using that unfolding images_only_def by (metis option.inject stored.distinct(1))
  then show ?thesis
    by (simp add: save_details_absent [OF assms])
qed

text \<open>
  The tile without details, in an empty storage: the main image and the swatch are
  saved, and nothing else.
\<close>

theorem no_record_without_details_witness:
  "item_detail_text bare_tile = Inl NoSuchElementException
   \<and> files (snd (save_details colour_world (lit ''Test Chair'') chair_folder bare_tile
                   empty_state)) = Map.empty
   \<and> files (extract_product colour_world 1 bare_tile empty_state)
       (lit ''scraped_products/Test Chair/product_details.csv'') = None
   \<and> dom (files (extract_product colour_world 1 bare_tile empty_state)) =
       {lit ''scraped_products/Test Chair/main_image.jpg'',
        lit ''scraped_products/Test Chair/swatch_1.jpg''}"
proof -
  have h: "item_detail_text bare_tile = Inl NoSuchElementException"
    by (simp add: bare_tile_def)
  note t = no_record_without_details [OF h, of colour_world "lit ''Test Chair''" chair_folder
      empty_state 1]
  have a: "files (snd (save_details colour_world (lit ''Test Chair'') chair_folder bare_tile
                   empty_state)) = Map.empty"
    using t by (simp add: empty_state_def)
  have d: "dom (files (extract_product colour_world 1 bare_tile empty_state)) =
       {lit ''scraped_products/Test Chair/main_image.jpg'',
        lit ''scraped_products/Test Chair/swatch_1.jpg''}"
    by (simp add: extract_product_eq extract_steps_def resolve_name_def
        resolve_name_try_def makedirs_def sanitize_folder_name_def remove_invalid_def
        invalid_chars_def strip_def isspace_def
        bare_tile_def plain_tile_def colour_world_def empty_state_def
        extract_main_image_def main_image_try_def image_url_def truthy_def example_url_def
        download_image_def process_swatches_def swatches_try_def process_swatch_def
        swatch_try_def activate_def red_button_def swatch_filename_def save_details_def
        details_try_def read_pricing_def Let_def path_join_def str.simps insert_commute
        write_rows_eq csv_rows_def writerow_def row_encodable_def)
  have "lit ''scraped_products/Test Chair/product_details.csv'' \<notin>
      dom (files (extract_product colour_world 1 bare_tile empty_state))"
    unfolding d by simp
  then have c: "files (extract_product colour_world 1 bare_tile empty_state)
       (lit ''scraped_products/Test Chair/product_details.csv'') = None"
    by (simp only: domIff not_not)
  from h a c d show ?thesis by blast
qed

section \<open>What the steps report\<close>

lemma console_growsI: "console s' = console s @ rs \<Longrightarrow> console_grows s s'"
  by (simp add: console_grows_def)

lemma console_growsE:
  assumes "console_grows s s'"
  obtains rs where "console s' = console s @ rs"
  using assms unfolding console_grows_def by (metis append_take_drop_id)

lemma console_grows_refl [simp]: "console_grows s s"
  by (simp add: console_grows_def)

lemma console_grows_trans:
  "console_grows s s' \<Longrightarrow> console_grows s' s'' \<Longrightarrow> console_grows s s''"
  by (elim console_growsE) (auto intro: console_growsI)

lemma console_grows_say [simp]: "console_grows s (say r s)"
  by (rule console_growsI) simp

lemma console_grows_say_then: "console_grows (say r s) s' \<Longrightarrow> console_grows s s'"
  by (rule console_grows_trans [OF console_grows_say])

lemma console_grows_then_say: "console_grows s s' \<Longrightarrow> console_grows s (say r s')"
  by (rule console_grows_trans [OF _ console_grows_say])

lemma console_grows_download [simp]: "console_grows s (snd (download_image w u f s))"
  by (auto simp: download_image_def intro: console_growsI split: sum.splits)

lemma console_grows_makedirs [simp]: "console_grows s (snd (makedirs w p s))"
  by (auto simp: makedirs_def intro: console_growsI)

lemma console_makedirs [simp]: "console (snd (makedirs w p s)) = console s"
  by (simp add: makedirs_def)

lemma console_grows_resolve_name_try [simp]:
  "console_grows s (snd (resolve_name_try w i t s))"
  by (auto simp: resolve_name_try_def Let_def split_def intro: console_growsI
      split: sum.splits option.splits)



lemma console_grows_say_download [simp]:
  "console_grows s (snd (download_image w u f (say r s)))"
  by (rule console_grows_say_then [of r]) simp

lemma console_grows_swatch_try [simp]: "console_grows s (snd (swatch_try w folder i b s))"
  by (auto simp: swatch_try_def Let_def split: sum.splits option.splits)

lemma console_grows_process_swatch [simp]:
  "console_grows s (process_swatch w folder i b s)"
  by (auto simp: process_swatch_def split_def intro: console_grows_then_say
      split: option.splits)

lemma console_grows_swatch_loop [simp]: "console_grows s (swatch_loop w folder i bs s)"
proof (induction bs arbitrary: i s)
  case Nil
  show ?case by simp
next
  case (Cons b bs)
  show ?case
    using console_grows_trans [OF console_grows_process_swatch Cons.IH] by simp
qed

lemma console_grows_say_swatch_loop [simp]:
  "console_grows s (swatch_loop w folder i bs (say r s))"
  by (rule console_grows_say_then [of r]) simp



section \<open>What the steps raise\<close>
















section \<open>C1: which exceptions a step survives\<close>




end
